theory Spec2Isabelle
  imports Main "HOL-Library.AList"
begin

section \<open>Platforms (platform.go)\<close>

text \<open>
  A platform is a combination of OS and architecture. \<open>Default\<close> marks the platforms that
  are built when no OS/arch is requested.
\<close>

record Platform =
  OS :: string
  Arch :: string
  Default :: bool

text \<open>\<^verbatim>\<open>func (p *Platform) String() string\<close>: \<^verbatim>\<open>fmt.Sprintf("%s/%s", p.OS, p.Arch)\<close>.\<close>

definition String :: "Platform \<Rightarrow> string" where
  "String p = OS p @ ''/'' @ Arch p"

text \<open>
  A Go map is modelled by an association list with distinct keys, kept in the order in
  which the keys were first stored. Storing under a key that is present replaces the
  value where it stands (\<^const>\<open>AList.update\<close>). Go leaves the order in which
  \<^verbatim>\<open>range\<close> visits a map unspecified; the model visits it in the order of the list, and
  the statements proved below about results of such loops speak of membership and
  multiplicity only.
\<close>

type_synonym ('k, 'v) gomap = "('k \<times> 'v) list"

text \<open>Reading a \<^verbatim>\<open>map[string]bool\<close>: a missing key reads as \<^verbatim>\<open>false\<close>.\<close>

definition lookup_bool :: "('k, bool) gomap \<Rightarrow> 'k \<Rightarrow> bool" where
  "lookup_bool m k = (case map_of m k of None \<Rightarrow> False | Some b \<Rightarrow> b)"

text \<open>
  \<^verbatim>\<open>addDrop\<close> appends all of the "add" entries and drops the "drop" entries. The three
  loops of the source are three folds; the last loop turns the map back into a slice. (The parameter \<^verbatim>\<open>drop\<close> is
  written \<open>drp\<close>: \<^const>\<open>drop\<close> is a list function of HOL.)
\<close>

definition addDrop_put :: "(string, bool) gomap \<Rightarrow> Platform \<Rightarrow> (string, Platform) gomap \<Rightarrow> (string, Platform) gomap" where
  "addDrop_put dropMap platform platformMap =
     (let key = String platform
      in if \<not> lookup_bool dropMap key then AList.update key platform platformMap
         else platformMap)"

definition dropMap :: "Platform list \<Rightarrow> (string, bool) gomap" where
  "dropMap drp = fold (\<lambda>platform m. AList.update (String platform) True m) drp []"

definition platformMap :: "Platform list \<Rightarrow> Platform list \<Rightarrow> Platform list \<Rightarrow> (string, Platform) gomap" where
  "platformMap base add drp =
     fold (addDrop_put (dropMap drp)) add (fold (addDrop_put (dropMap drp)) base [])"

definition addDrop :: "Platform list \<Rightarrow> Platform list \<Rightarrow> Platform list \<Rightarrow> Platform list" where
  "addDrop base add drp = map snd (platformMap base add drp)"

abbreviation P :: "string \<Rightarrow> string \<Rightarrow> bool \<Rightarrow> Platform" where
  "P os arch dflt \<equiv> \<lparr>OS = os, Arch = arch, Default = dflt\<rparr>"

definition Platforms_1_0 :: "Platform list" where
  "Platforms_1_0 =
    [P ''darwin'' ''386'' True,
     P ''darwin'' ''amd64'' True,
     P ''linux'' ''386'' True,
     P ''linux'' ''amd64'' True,
     P ''linux'' ''arm'' True,
     P ''freebsd'' ''386'' True,
     P ''freebsd'' ''amd64'' True,
     P ''openbsd'' ''386'' True,
     P ''openbsd'' ''amd64'' True,
     P ''windows'' ''386'' True,
     P ''windows'' ''amd64'' True]"

definition Platforms_1_1 :: "Platform list" where
  "Platforms_1_1 = addDrop Platforms_1_0
    [P ''freebsd'' ''arm'' True,
     P ''netbsd'' ''386'' True,
     P ''netbsd'' ''amd64'' True,
     P ''netbsd'' ''arm'' True,
     P ''plan9'' ''386'' False] []"

definition Platforms_1_3 :: "Platform list" where
  "Platforms_1_3 = addDrop Platforms_1_1
    [P ''dragonfly'' ''386'' False,
     P ''dragonfly'' ''amd64'' False,
     P ''nacl'' ''amd64'' False,
     P ''nacl'' ''amd64p32'' False,
     P ''nacl'' ''arm'' False,
     P ''solaris'' ''amd64'' False] []"

definition Platforms_1_4 :: "Platform list" where
  "Platforms_1_4 = addDrop Platforms_1_3
    [P ''android'' ''arm'' False,
     P ''plan9'' ''amd64'' False] []"

definition Platforms_1_5 :: "Platform list" where
  "Platforms_1_5 = addDrop Platforms_1_4
    [P ''darwin'' ''arm'' False,
     P ''darwin'' ''arm64'' False,
     P ''linux'' ''arm64'' False,
     P ''linux'' ''ppc64'' False,
     P ''linux'' ''ppc64le'' False] []"

definition Platforms_1_6 :: "Platform list" where
  "Platforms_1_6 = addDrop Platforms_1_5
    [P ''android'' ''386'' False,
     P ''android'' ''amd64'' False,
     P ''linux'' ''mips64'' False,
     P ''linux'' ''mips64le'' False,
     P ''nacl'' ''386'' False,
     P ''openbsd'' ''arm'' True] []"

definition Platforms_1_7 :: "Platform list" where
  "Platforms_1_7 = addDrop Platforms_1_5
    [P ''linux'' ''s390x'' True,
     P ''plan9'' ''arm'' False,
     P ''android'' ''386'' False,
     P ''android'' ''amd64'' False,
     P ''linux'' ''mips64'' True,
     P ''linux'' ''mips64le'' True,
     P ''nacl'' ''386'' False,
     P ''openbsd'' ''arm'' True] []"

definition Platforms_1_8 :: "Platform list" where
  "Platforms_1_8 = addDrop Platforms_1_7
    [P ''linux'' ''mips'' True,
     P ''linux'' ''mipsle'' True] []"

definition Platforms_1_9 :: "Platform list" where
  "Platforms_1_9 = Platforms_1_8"

definition Platforms_1_10 :: "Platform list" where
  "Platforms_1_10 = addDrop Platforms_1_9 [] [P ''android'' ''amd64'' False]"

definition Platforms_1_11 :: "Platform list" where
  "Platforms_1_11 = addDrop Platforms_1_10
    [P ''js'' ''wasm'' True] []"

definition Platforms_1_12 :: "Platform list" where
  "Platforms_1_12 = addDrop Platforms_1_11
    [P ''aix'' ''ppc64'' False,
     P ''windows'' ''arm'' True] []"

definition Platforms_1_13 :: "Platform list" where
  "Platforms_1_13 = addDrop Platforms_1_12
    [P ''illumos'' ''amd64'' False,
     P ''netbsd'' ''arm64'' True,
     P ''openbsd'' ''arm64'' True] []"

definition Platforms_1_14 :: "Platform list" where
  "Platforms_1_14 = addDrop Platforms_1_13
    [P ''freebsd'' ''arm64'' True,
     P ''linux'' ''riscv64'' True]
    [P ''nacl'' ''386'' False,
     P ''nacl'' ''amd64'' False,
     P ''nacl'' ''arm'' False]"

definition Platforms_1_15 :: "Platform list" where
  "Platforms_1_15 = addDrop Platforms_1_14
    [P ''android'' ''arm64'' False]
    [P ''darwin'' ''386'' False]"

definition Platforms_1_16 :: "Platform list" where
  "Platforms_1_16 = addDrop Platforms_1_15
    [P ''android'' ''amd64'' False,
     P ''darwin'' ''arm64'' True,
     P ''openbsd'' ''mips64'' False] []"

definition Platforms_1_17 :: "Platform list" where
  "Platforms_1_17 = addDrop Platforms_1_16
    [P ''windows'' ''arm64'' True] []"

definition Platforms_1_18 :: "Platform list" where
  "Platforms_1_18 = Platforms_1_17"

definition Platforms_1_19 :: "Platform list" where
  "Platforms_1_19 = addDrop Platforms_1_18
    [P ''linux'' ''loong64'' True] []"

definition Platforms_1_20 :: "Platform list" where
  "Platforms_1_20 = addDrop Platforms_1_19
    [P ''freebsd'' ''riscv64'' True] []"

definition Platforms_1_21 :: "Platform list" where
  "Platforms_1_21 = addDrop Platforms_1_20
    [P ''android'' ''386'' False,
     P ''android'' ''arm'' False] []"

definition Platforms_1_22 :: "Platform list" where
  "Platforms_1_22 = addDrop Platforms_1_21 [] []"

definition Platforms_1_23 :: "Platform list" where
  "Platforms_1_23 = Platforms_1_22"

definition PlatformsLatest :: "Platform list" where
  "PlatformsLatest = Platforms_1_23"

subsection \<open>Strings\<close>

text \<open>
  \<^verbatim>\<open>strings.Split(s, sep)\<close> for a separator of one character, the only use the source
  makes of it (\<^verbatim>\<open>" "\<close> and \<^verbatim>\<open>"/"\<close>): the pieces of \<open>s\<close> between the separators, so the
  empty string has one piece, the empty string, and \<open>n\<close> separators give \<open>n + 1\<close> pieces.
  The scan keeps the piece read so far and closes it at each separator and at the end.
\<close>

fun split_from :: "string \<Rightarrow> char \<Rightarrow> string \<Rightarrow> string list" where
  "split_from piece sep [] = [piece]"
| "split_from piece sep (c # cs) =
     (if c = sep then piece # split_from [] sep cs else split_from (piece @ [c]) sep cs)"

definition Split :: "string \<Rightarrow> char \<Rightarrow> string list" where
  "Split s sep = split_from [] sep s"

text \<open>
  \<^verbatim>\<open>strings.ToLower\<close> on ASCII: the letters \<^verbatim>\<open>A\<close> to \<^verbatim>\<open>Z\<close> are mapped to \<^verbatim>\<open>a\<close> to \<^verbatim>\<open>z\<close>,
  every other byte is kept. (Go also lowers letters beyond ASCII; flag values with such
  letters are outside this model.)
\<close>

definition to_lower :: "char \<Rightarrow> char" where
  "to_lower c =
     (if 65 \<le> (of_char c :: nat) \<and> (of_char c :: nat) \<le> 90
      then char_of ((of_char c :: nat) + 32) else c)"

definition ToLower :: "string \<Rightarrow> string" where
  "ToLower s = map to_lower s"

definition HasPrefix :: "string \<Rightarrow> string \<Rightarrow> bool" where
  "HasPrefix s prefix = (take (length prefix) s = prefix)"

subsection \<open>Versions and constraints\<close>

text \<open>
  \<^verbatim>\<open>SupportedPlatforms\<close> parses and compares versions with the package
  \<^verbatim>\<open>github.com/hashicorp/go-version\<close>, which is not part of this repository. The model
  covers the fragment the ladder needs: a version is a list of decimal segments separated
  by dots, with an optional leading \<^verbatim>\<open>v\<close>; each segment has to fit a signed 64-bit integer;
  a version is padded with zeros to three segments. A version string with a pre-release
  or metadata suffix (such as \<^verbatim>\<open>1.16beta1\<close>) is outside this fragment: the model gives
  \<open>None\<close> for it, and nothing below is stated about such a string.
\<close>

definition is_digit :: "char \<Rightarrow> bool" where
  "is_digit c = (48 \<le> (of_char c :: nat) \<and> (of_char c :: nat) \<le> 57)"

definition parse_segment :: "string \<Rightarrow> nat option" where
  "parse_segment s =
     (if s \<noteq> [] \<and> list_all is_digit s
      then (let n = fold (\<lambda>c n. 10 * n + ((of_char c :: nat) - 48)) s 0
            in if n < 2 ^ 63 then Some n else None)
      else None)"

fun parse_segments :: "string list \<Rightarrow> nat list option" where
  "parse_segments [] = Some []"
| "parse_segments (s # ss) =
     (case parse_segment s of
        None \<Rightarrow> None
      | Some n \<Rightarrow> (case parse_segments ss of None \<Rightarrow> None | Some ns \<Rightarrow> Some (n # ns)))"

definition NewVersion :: "string \<Rightarrow> nat list option" where
  "NewVersion v =
     (let v = (if HasPrefix v ''v'' then drop 1 v else v)
      in case parse_segments (Split v CHR ''.'') of
           None \<Rightarrow> None
         | Some segments \<Rightarrow> Some (segments @ replicate (3 - length segments) 0))"

text \<open>Comparison of two versions, segment by segment; a missing segment counts as zero.\<close>

fun Compare :: "nat list \<Rightarrow> nat list \<Rightarrow> int" where
  "Compare [] [] = 0"
| "Compare (a # as) [] = (if 0 < a then 1 else Compare as [])"
| "Compare [] (b # bs) = (if 0 < b then - 1 else Compare [] bs)"
| "Compare (a # as) (b # bs) =
     (if a < b then - 1 else if b < a then 1 else Compare as bs)"

text \<open>
  The constraints of the ladder use three operators. A constraint string such as
  \<^verbatim>\<open>">= 1.1, < 1.3"\<close> is the list of its comma-separated parts, all of which have to hold.
\<close>

datatype operator = LessEqual | GreaterEqual | LessThan

type_synonym constraint = "operator \<times> nat list"

fun check :: "constraint \<Rightarrow> nat list \<Rightarrow> bool" where
  "check (LessEqual, c) v = (Compare v c \<le> 0)"
| "check (GreaterEqual, c) v = (Compare v c \<ge> 0)"
| "check (LessThan, c) v = (Compare v c < 0)"

definition Check :: "constraint list \<Rightarrow> nat list \<Rightarrow> bool" where
  "Check constraints v = list_all (\<lambda>c. check c v) constraints"

text \<open>
  The table of \<^verbatim>\<open>SupportedPlatforms\<close>, each constraint string of the source as
  \<^verbatim>\<open>version.NewConstraint\<close> reads it (all of them parse, so the \<^verbatim>\<open>panic\<close> of the loop is
  never reached).
\<close>

definition platforms :: "(constraint list \<times> Platform list) list" where
  "platforms =
    [([(LessEqual, [1, 0, 0])], Platforms_1_0),
     ([(GreaterEqual, [1, 1, 0]), (LessThan, [1, 3, 0])], Platforms_1_1),
     ([(GreaterEqual, [1, 3, 0]), (LessThan, [1, 4, 0])], Platforms_1_3),
     ([(GreaterEqual, [1, 4, 0]), (LessThan, [1, 5, 0])], Platforms_1_4),
     ([(GreaterEqual, [1, 5, 0]), (LessThan, [1, 6, 0])], Platforms_1_5),
     ([(GreaterEqual, [1, 6, 0]), (LessThan, [1, 7, 0])], Platforms_1_6),
     ([(GreaterEqual, [1, 7, 0]), (LessThan, [1, 8, 0])], Platforms_1_7),
     ([(GreaterEqual, [1, 8, 0]), (LessThan, [1, 9, 0])], Platforms_1_8),
     ([(GreaterEqual, [1, 9, 0]), (LessThan, [1, 10, 0])], Platforms_1_9),
     ([(GreaterEqual, [1, 10, 0]), (LessThan, [1, 11, 0])], Platforms_1_10),
     ([(GreaterEqual, [1, 11, 0]), (LessThan, [1, 12, 0])], Platforms_1_11),
     ([(GreaterEqual, [1, 12, 0]), (LessThan, [1, 13, 0])], Platforms_1_12),
     ([(GreaterEqual, [1, 13, 0]), (LessThan, [1, 14, 0])], Platforms_1_13),
     ([(GreaterEqual, [1, 14, 0]), (LessThan, [1, 15, 0])], Platforms_1_14),
     ([(GreaterEqual, [1, 15, 0]), (LessThan, [1, 16, 0])], Platforms_1_15),
     ([(GreaterEqual, [1, 16, 0]), (LessThan, [1, 17, 0])], Platforms_1_16),
     ([(GreaterEqual, [1, 17, 0]), (LessThan, [1, 18, 0])], Platforms_1_17),
     ([(GreaterEqual, [1, 18, 0]), (LessThan, [1, 19, 0])], Platforms_1_18),
     ([(GreaterEqual, [1, 19, 0]), (LessThan, [1, 20, 0])], Platforms_1_19),
     ([(GreaterEqual, [1, 20, 0]), (LessThan, [1, 21, 0])], Platforms_1_20),
     ([(GreaterEqual, [1, 21, 0]), (LessThan, [1, 22, 0])], Platforms_1_21),
     ([(GreaterEqual, [1, 22, 0]), (LessThan, [1, 23, 0])], Platforms_1_22),
     ([(GreaterEqual, [1, 23, 0])], Platforms_1_23)]"

text \<open>The loop of \<^verbatim>\<open>SupportedPlatforms\<close>: the first entry whose constraint holds.\<close>

fun first_match :: "(constraint list \<times> Platform list) list \<Rightarrow> nat list \<Rightarrow> Platform list" where
  "first_match [] current = PlatformsLatest"
| "first_match (p # ps) current =
     (if Check (fst p) current then snd p else first_match ps current)"

definition SupportedPlatforms :: "string \<Rightarrow> Platform list" where
  "SupportedPlatforms v =
     (if \<not> HasPrefix v ''go'' then PlatformsLatest
      else case NewVersion (drop 2 v) of
             None \<Rightarrow> PlatformsLatest
           | Some current \<Rightarrow> first_match platforms current)"

section \<open>The platform flag\<close>

text \<open>
  \<^verbatim>\<open>PlatformFlag\<close> tracks the os/arch flags of the command line. Its fields \<^verbatim>\<open>OS\<close>,
  \<^verbatim>\<open>Arch\<close> and \<^verbatim>\<open>OSArch\<close> are written \<open>flagOS\<close>, \<open>flagArch\<close> and \<open>flagOSArch\<close>, the first
  two names being fields of \<open>Platform\<close>.
\<close>

record PlatformFlag =
  flagOS :: "string list"
  flagArch :: "string list"
  flagOSArch :: "Platform list"

text \<open>
  The failures of this part: the error value of \<^verbatim>\<open>appendPlatformValue.Set\<close>, whose text
  is \<^verbatim>\<open>"Invalid platform syntax: %s should be os/arch"\<close> with the offending token for
  \<^verbatim>\<open>%s\<close>, and the run-time panic of indexing an empty string at position 0.
\<close>

datatype error = InvalidPlatformSyntax string | IndexOutOfRange

subsection \<open>Collecting the flag values\<close>

text \<open>Both \<^verbatim>\<open>appendIfMissing\<close> methods: append the value unless the list holds it.\<close>

definition appendIfMissing :: "'a list \<Rightarrow> 'a \<Rightarrow> 'a list" where
  "appendIfMissing s v = (if v \<in> set s then s else s @ [v])"

text \<open>
  A \<^verbatim>\<open>Set\<close> method changes the list it is called on and returns an error or \<^verbatim>\<open>nil\<close>: the
  model returns the new list together with the error, if any. What the loop has appended
  before it returns an error stays appended.
\<close>

definition appendStringValue_Set :: "string list \<Rightarrow> string \<Rightarrow> string list \<times> error option" where
  "appendStringValue_Set s v =
     (fold (\<lambda>v s. if v \<noteq> [] then appendIfMissing s (ToLower v) else s) (Split v CHR '' '') s,
      None)"

fun appendPlatformValue_loop :: "string list \<Rightarrow> Platform list \<Rightarrow> Platform list \<times> error option" where
  "appendPlatformValue_loop [] s = (s, None)"
| "appendPlatformValue_loop (v # vs) s =
     (let parts = Split v CHR ''/''
      in if length parts \<noteq> 2 then (s, Some (InvalidPlatformSyntax v))
         else appendPlatformValue_loop vs
                (appendIfMissing s
                   \<lparr>OS = ToLower (parts ! 0), Arch = ToLower (parts ! 1), Default = False\<rparr>))"

definition appendPlatformValue_Set :: "Platform list \<Rightarrow> string \<Rightarrow> Platform list \<times> error option" where
  "appendPlatformValue_Set s v =
     (if v = [] then (s, None) else appendPlatformValue_loop (Split v CHR '' '') s)"

subsection \<open>Platforms\<close>

text \<open>
  The loops over \<^verbatim>\<open>p.Arch\<close> and over \<^verbatim>\<open>p.OS\<close> have the same body: \<^verbatim>\<open>v[0]\<close> panics on an
  empty string, a leading \<^verbatim>\<open>!\<close> stores the rest of the token in the ignore map, anything
  else stores the token in the include map.
\<close>

fun parse_flags ::
  "string list \<Rightarrow> (string, bool) gomap \<times> (string, bool) gomap \<Rightarrow>
   error + (string, bool) gomap \<times> (string, bool) gomap" where
  "parse_flags [] (ignore, include) = Inr (ignore, include)"
| "parse_flags (v # vs) (ignore, include) =
     (case v of
        [] \<Rightarrow> Inl IndexOutOfRange
      | c # rest \<Rightarrow>
          if c = CHR ''!'' then parse_flags vs (AList.update rest True ignore, include)
          else parse_flags vs (ignore, AList.update v True include))"

text \<open>The loop over \<^verbatim>\<open>p.OSArch\<close>: only the OS of a pair is tested for the \<^verbatim>\<open>!\<close>.\<close>

fun parse_osarch ::
  "Platform list \<Rightarrow> (string, bool) gomap \<times> (string, bool) gomap \<Rightarrow>
   error + (string, bool) gomap \<times> (string, bool) gomap" where
  "parse_osarch [] (ignore, include) = Inr (ignore, include)"
| "parse_osarch (v # vs) (ignore, include) =
     (case OS v of
        [] \<Rightarrow> Inl IndexOutOfRange
      | c # rest \<Rightarrow>
          if c = CHR ''!''
          then parse_osarch vs
                 (AList.update (String \<lparr>OS = rest, Arch = Arch v, Default = False\<rparr>) True ignore,
                  include)
          else parse_osarch vs (ignore, AList.update (String v) True include))"

definition supportedMap :: "Platform list \<Rightarrow> (string, Platform) gomap" where
  "supportedMap supported =
     fold (\<lambda>platform m. AList.update (String platform) platform m) supported []"

text \<open>The four branches that determine which platforms to build.\<close>

definition determine ::
  "Platform list \<Rightarrow> (string, bool) gomap \<Rightarrow> (string, bool) gomap \<Rightarrow> (string, bool) gomap \<Rightarrow>
   (string, bool) gomap \<Rightarrow> Platform list" where
  "determine supported includeArch includeOS ignoreOSArch includeOSArch =
     (if length includeOSArch > 0 then
        concat (map (\<lambda>platformStr.
          case map_of (supportedMap supported) platformStr of
            None \<Rightarrow> []
          | Some platform \<Rightarrow>
              if \<not> lookup_bool ignoreOSArch platformStr then [platform\<lparr>Default := False\<rparr>]
              else []) (map fst includeOSArch))
      else if length includeOS > 0 \<and> length includeArch > 0 then
        concat (map (\<lambda>os. concat (map (\<lambda>arch.
          let platform = \<lparr>OS = os, Arch = arch, Default = False\<rparr>
          in case map_of (supportedMap supported) (String platform) of
               None \<Rightarrow> []
             | Some _ \<Rightarrow> [platform\<lparr>Default := False\<rparr>]) (map fst includeArch))) (map fst includeOS))
      else if length includeOS > 0 then
        concat (map (\<lambda>os.
          map (\<lambda>platform. platform\<lparr>Default := False\<rparr>)
            (filter (\<lambda>platform. OS platform = os) supported)) (map fst includeOS))
      else
        map (\<lambda>platform. platform\<lparr>Default := False\<rparr>) (filter Default supported))"

text \<open>The exclusion filters: \<open>excluded\<close> holds where the loop says \<^verbatim>\<open>continue\<close>.\<close>

definition excluded ::
  "(string, bool) gomap \<Rightarrow> (string, bool) gomap \<Rightarrow> (string, bool) gomap \<Rightarrow>
   (string, bool) gomap \<Rightarrow> (string, bool) gomap \<Rightarrow> (string, bool) gomap \<Rightarrow> Platform \<Rightarrow> bool" where
  "excluded ignoreArch includeArch ignoreOS includeOS ignoreOSArch includeOSArch platform =
     (let platformStr = String platform
      in if lookup_bool ignoreOSArch platformStr then True
         else if lookup_bool ignoreOS (OS platform) \<or> lookup_bool ignoreArch (Arch platform) then True
         else if length includeOSArch = 0 \<and> length includeOS > 0
                 \<and> \<not> lookup_bool includeOS (OS platform) then True
         else if length includeOSArch = 0 \<and> length includeArch > 0
                 \<and> \<not> lookup_bool includeArch (Arch platform) then True
         else False)"

definition Platforms :: "PlatformFlag \<Rightarrow> Platform list \<Rightarrow> error + Platform list" where
  "Platforms p supported =
     (case parse_flags (flagArch p) ([], []) of
        Inl e \<Rightarrow> Inl e
      | Inr (ignoreArch, includeArch) \<Rightarrow>
     (case parse_flags (flagOS p) ([], []) of
        Inl e \<Rightarrow> Inl e
      | Inr (ignoreOS, includeOS) \<Rightarrow>
     (case parse_osarch (flagOSArch p) ([], []) of
        Inl e \<Rightarrow> Inl e
      | Inr (ignoreOSArch, includeOSArch) \<Rightarrow>
          (let result = determine supported includeArch includeOS ignoreOSArch includeOSArch
           in Inr (filter (\<lambda>platform. \<not> excluded ignoreArch includeArch ignoreOS includeOS
                                            ignoreOSArch includeOSArch platform) result)))))"

section \<open>Specification vocabulary\<close>

text \<open>The identity of a platform: its OS and architecture, without the \<open>Default\<close> flag.\<close>

definition identity :: "Platform \<Rightarrow> string \<times> string" where
  "identity p = (OS p, Arch p)"

text \<open>The last platform of a list with a given string form, if there is one.\<close>

definition latest :: "string \<Rightarrow> Platform list \<Rightarrow> Platform option" where
  "latest k ps = List.find (\<lambda>p. String p = k) (rev ps)"

text \<open>A map from string forms to platforms in which every platform is stored under its own.\<close>

definition keyed :: "(string, Platform) gomap \<Rightarrow> bool" where
  "keyed m = list_all (\<lambda>(k, p). k = String p) m"

text \<open>The last platform of a list with a given identity, if there is one.\<close>

definition last_with :: "string \<times> string \<Rightarrow> Platform list \<Rightarrow> Platform option" where
  "last_with i ps = List.find (\<lambda>p. identity p = i) (rev ps)"

text \<open>
  The string form \<open>OS/Arch\<close> determines the identity of a platform whose OS name holds no
  separator; \<open>plain\<close> lists hold such platforms only.
\<close>

definition plain :: "Platform list \<Rightarrow> bool" where
  "plain ps = list_all (\<lambda>p. CHR ''/'' \<notin> set (OS p)) ps"

text \<open>
  The filter request held by a \<open>PlatformFlag\<close>. A token is negated when its first character
  is the negation marker \<^verbatim>\<open>!\<close>; the name it excludes is the rest of the token. Of a pair
  only the OS is looked at.
\<close>

definition negated :: "string \<Rightarrow> bool" where
  "negated v = (take 1 v = ''!'')"

definition included_names :: "string list \<Rightarrow> string list" where
  "included_names vs = filter (\<lambda>v. \<not> negated v) vs"

definition excluded_names :: "string list \<Rightarrow> string list" where
  "excluded_names vs = map (drop 1) (filter negated vs)"

definition pairIncludes :: "Platform list \<Rightarrow> Platform list" where
  "pairIncludes vs = filter (\<lambda>v. \<not> negated (OS v)) vs"

definition pairExcludes :: "Platform list \<Rightarrow> Platform list" where
  "pairExcludes vs =
     map (\<lambda>v. \<lparr>OS = drop 1 (OS v), Arch = Arch v, Default = False\<rparr>)
       (filter (\<lambda>v. negated (OS v)) vs)"

text \<open>A request is well formed when no token and no OS of a pair is the empty string.\<close>

definition well_formed :: "PlatformFlag \<Rightarrow> bool" where
  "well_formed p =
     (list_all (\<lambda>v. v \<noteq> []) (flagOS p) \<and> list_all (\<lambda>v. v \<noteq> []) (flagArch p)
      \<and> list_all (\<lambda>v. OS v \<noteq> []) (flagOSArch p))"

text \<open>
  The exclusion pass in the words of the specification: a platform is dropped when its
  pair, its OS or its architecture is excluded and, if no pair is included, when its OS is
  not among the included ones (if there are any) or its architecture is not among the
  included ones (if there are any).
\<close>

definition dropped :: "PlatformFlag \<Rightarrow> Platform \<Rightarrow> bool" where
  "dropped p platform =
     (String platform \<in> String ` set (pairExcludes (flagOSArch p))
      \<or> OS platform \<in> set (excluded_names (flagOS p))
      \<or> Arch platform \<in> set (excluded_names (flagArch p))
      \<or> (pairIncludes (flagOSArch p) = [] \<and> included_names (flagOS p) \<noteq> []
           \<and> OS platform \<notin> set (included_names (flagOS p)))
      \<or> (pairIncludes (flagOSArch p) = [] \<and> included_names (flagArch p) \<noteq> []
           \<and> Arch platform \<notin> set (included_names (flagArch p))))"

text \<open>A map that holds the keys of a list, each with the value \<^verbatim>\<open>true\<close>.\<close>

definition true_map :: "'k list \<Rightarrow> ('k, bool) gomap \<Rightarrow> ('k, bool) gomap" where
  "true_map ks m = fold (\<lambda>k m. AList.update k True m) ks m"

text \<open>The snapshots of the historical ladder.\<close>

definition ladder :: "Platform list list" where
  "ladder =
    [Platforms_1_0, Platforms_1_1, Platforms_1_3, Platforms_1_4, Platforms_1_5, Platforms_1_6,
     Platforms_1_7, Platforms_1_8, Platforms_1_9, Platforms_1_10, Platforms_1_11,
     Platforms_1_12, Platforms_1_13, Platforms_1_14, Platforms_1_15, Platforms_1_16,
     Platforms_1_17, Platforms_1_18, Platforms_1_19, Platforms_1_20, Platforms_1_21,
     Platforms_1_22, Platforms_1_23, PlatformsLatest]"

section \<open>Properties of \<open>addDrop\<close>\<close>

lemma lookup_fold_True:
  "lookup_bool (fold (\<lambda>platform m. AList.update (f platform) True m) drp m0) k
     \<longleftrightarrow> k \<in> f ` set drp \<or> lookup_bool m0 k"
  by (induction drp arbitrary: m0) (auto simp: lookup_bool_def update_conv')

lemma lookup_dropMap: "lookup_bool (dropMap drp) k \<longleftrightarrow> k \<in> String ` set drp"
  by (simp add: dropMap_def lookup_fold_True) (simp add: lookup_bool_def)

lemma latest_Nil: "latest k [] = None"
  by (simp add: latest_def)

lemma latest_snoc: "latest k (ps @ [p]) = (if String p = k then Some p else latest k ps)"
  by (simp add: latest_def)

lemma latest_append:
  "latest k (xs @ ys) = (case latest k ys of None \<Rightarrow> latest k xs | Some q \<Rightarrow> Some q)"
proof (induction ys rule: rev_induct)
  case Nil
  show ?case by (simp add: latest_Nil)
next
  case (snoc y ys)
  have "latest k (xs @ ys @ [y]) = latest k ((xs @ ys) @ [y])" by simp
  then show ?case by (simp only: latest_snoc snoc.IH) simp
qed

lemma latest_single: "latest k [p] = (if String p = k then Some p else None)"
  using latest_snoc [of k "[]" p] by (simp add: latest_Nil)

lemma put_map_of:
  "map_of (addDrop_put dm p m) k =
     (if \<not> lookup_bool dm (String p) \<and> String p = k then Some p else map_of m k)"
  by (auto simp: addDrop_put_def Let_def update_conv')

lemma latest_Cons:
  "latest k (p # qs) =
     (case latest k qs of None \<Rightarrow> (if String p = k then Some p else None) | Some q \<Rightarrow> Some q)"
  using latest_append [of k "[p]" qs] by (simp add: latest_single split: option.splits)

lemma fold_put_map_of:
  "map_of (fold (addDrop_put dm) ps m) k =
     (case latest k (filter (\<lambda>p. \<not> lookup_bool dm (String p)) ps) of
        None \<Rightarrow> map_of m k | Some q \<Rightarrow> Some q)"
proof (induction ps arbitrary: m)
  case Nil
  show ?case by (simp add: latest_Nil)
next
  case (Cons p ps)
  have "map_of (fold (addDrop_put dm) (p # ps) m) k = map_of (fold (addDrop_put dm) ps (addDrop_put dm p m)) k"
    by simp
  also have "\<dots> = (case latest k (filter (\<lambda>p. \<not> lookup_bool dm (String p)) ps) of
        None \<Rightarrow> map_of (addDrop_put dm p m) k | Some q \<Rightarrow> Some q)"
    by (rule Cons.IH)
  also have "\<dots> = (case latest k (filter (\<lambda>p. \<not> lookup_bool dm (String p)) (p # ps)) of
        None \<Rightarrow> map_of m k | Some q \<Rightarrow> Some q)"
    by (simp add: put_map_of latest_Cons split: option.splits)
  finally show ?case .
qed

lemma put_distinct:
  "distinct (map fst m) \<Longrightarrow> distinct (map fst (addDrop_put dm p m))"
  by (simp add: addDrop_put_def Let_def distinct_update)

lemma fold_put_distinct:
  "distinct (map fst m) \<Longrightarrow> distinct (map fst (fold (addDrop_put dm) ps m))"
  by (induction ps arbitrary: m) (simp_all add: put_distinct)

lemma update_keyed: "keyed m \<Longrightarrow> keyed (AList.update (String q) q m)"
  unfolding keyed_def by (induction m) auto

lemma put_keyed: "keyed m \<Longrightarrow> keyed (addDrop_put dm q m)"
  by (simp add: addDrop_put_def Let_def update_keyed)

lemma fold_put_keyed: "keyed m \<Longrightarrow> keyed (fold (addDrop_put dm) ps m)"
proof (induction ps arbitrary: m)
  case Nil
  then show ?case by simp
next
  case (Cons a ps)
  from Cons.prems have "keyed (addDrop_put dm a m)" by (rule put_keyed)
  then have "keyed (fold (addDrop_put dm) ps (addDrop_put dm a m))" by (rule Cons.IH)
  then show ?case by simp
qed

lemma keyed_map_fst: "keyed m \<Longrightarrow> map String (map snd m) = map fst m"
  unfolding keyed_def by (induction m) auto


lemma platformMap_distinct: "distinct (map fst (platformMap base add drp))"
  by (simp add: platformMap_def fold_put_distinct)

lemma platformMap_keyed: "keyed (platformMap base add drp)"
proof -
  have "keyed []" by (simp add: keyed_def)
  then show ?thesis unfolding platformMap_def by (intro fold_put_keyed)
qed

lemma addDrop_keys: "map String (addDrop base add drp) = map fst (platformMap base add drp)"
  using keyed_map_fst [OF platformMap_keyed [of base add drp]] by (simp add: addDrop_def)

lemma addDrop_distinct_String: "distinct (map String (addDrop base add drp))"
  by (simp add: addDrop_keys platformMap_distinct)

lemma latest_filter_key:
  "latest k (filter (\<lambda>p. Q (String p)) ps) = (if Q k then latest k ps else None)"
proof (induction ps rule: rev_induct)
  case Nil
  show ?case by (simp add: latest_Nil)
next
  case (snoc p ps)
  then show ?case by (auto simp: latest_snoc)
qed

lemma platformMap_lookup:
  "map_of (platformMap base add drp) k =
     (if k \<in> String ` set drp then None
      else case latest k add of None \<Rightarrow> latest k base | Some q \<Rightarrow> Some q)"
proof -
  have kept: "latest k (filter (\<lambda>p. \<not> lookup_bool (dropMap drp) (String p)) ps) =
      (if k \<in> String ` set drp then None else latest k ps)" for ps
    using latest_filter_key [of k "\<lambda>s. \<not> lookup_bool (dropMap drp) s" ps]
    by (simp add: lookup_dropMap)
  show ?thesis
    by (simp add: platformMap_def fold_put_map_of kept split: option.splits)
qed

lemma keyed_member: "keyed m \<Longrightarrow> (k, p) \<in> set m \<Longrightarrow> k = String p"
  unfolding keyed_def list_all_iff by auto

lemma addDrop_member:
  "p \<in> set (addDrop base add drp) \<longleftrightarrow>
     String p \<notin> String ` set drp \<and>
     (case latest (String p) add of None \<Rightarrow> latest (String p) base | Some q \<Rightarrow> Some q) = Some p"
proof -
  have "p \<in> set (addDrop base add drp) \<longleftrightarrow> (String p, p) \<in> set (platformMap base add drp)"
    using keyed_member [OF platformMap_keyed [of base add drp]] by (force simp: addDrop_def)
  also have "\<dots> \<longleftrightarrow> map_of (platformMap base add drp) (String p) = Some p"
    by (simp add: platformMap_distinct)
  finally show ?thesis by (simp add: platformMap_lookup)
qed


lemma String_identity: "String p = (\<lambda>(os, arch). os @ ''/'' @ arch) (identity p)"
  by (simp add: String_def identity_def)

lemma distinct_identity:
  assumes "distinct (map String ps)"
  shows "distinct (map identity ps)"
proof -
  have "map String ps = map (\<lambda>(os, arch). os @ ''/'' @ arch) (map identity ps)"
    by (simp add: String_identity)
  with assms show ?thesis by (simp only: distinct_map [of _ "map identity ps"])
qed

lemma addDrop_distinct_identity: "distinct (map identity (addDrop base add drp))"
  by (rule distinct_identity) (rule addDrop_distinct_String)

lemma Platforms_1_0_distinct: "distinct (map identity Platforms_1_0)"
  by (simp add: Platforms_1_0_def identity_def)

text \<open>
  Claim C9. Every snapshot of the historical ladder, \<open>Platforms_1_0\<close> to \<open>Platforms_1_23\<close>
  and \<open>PlatformsLatest\<close>, holds no two entries with the same (OS, Arch) identity; and
  whatever its inputs are, the result of \<open>addDrop\<close> holds no two entries with the same
  identity, so that each derived snapshot keeps the invariant.
\<close>

theorem ladder_no_duplicates:
  "list_all (\<lambda>snapshot. distinct (map identity snapshot)) ladder
   \<and> distinct (map identity (addDrop base add drp))"
proof -
  have "distinct (map identity Platforms_1_8)" "distinct (map identity Platforms_1_17)"
    "distinct (map identity Platforms_1_22)"
    unfolding Platforms_1_8_def Platforms_1_17_def Platforms_1_22_def
    by (rule addDrop_distinct_identity)+
  moreover have "distinct (map identity Platforms_1_1)" "distinct (map identity Platforms_1_3)"
    "distinct (map identity Platforms_1_4)" "distinct (map identity Platforms_1_5)"
    "distinct (map identity Platforms_1_6)" "distinct (map identity Platforms_1_7)"
    "distinct (map identity Platforms_1_10)" "distinct (map identity Platforms_1_11)"
    "distinct (map identity Platforms_1_12)" "distinct (map identity Platforms_1_13)"
    "distinct (map identity Platforms_1_14)" "distinct (map identity Platforms_1_15)"
    "distinct (map identity Platforms_1_16)" "distinct (map identity Platforms_1_19)"
    "distinct (map identity Platforms_1_20)" "distinct (map identity Platforms_1_21)"
    unfolding Platforms_1_1_def Platforms_1_3_def Platforms_1_4_def Platforms_1_5_def
      Platforms_1_6_def Platforms_1_7_def Platforms_1_10_def Platforms_1_11_def
      Platforms_1_12_def Platforms_1_13_def Platforms_1_14_def Platforms_1_15_def
      Platforms_1_16_def Platforms_1_19_def Platforms_1_20_def Platforms_1_21_def
    by (rule addDrop_distinct_identity)+
  ultimately have "list_all (\<lambda>snapshot. distinct (map identity snapshot)) ladder"
    unfolding ladder_def PlatformsLatest_def Platforms_1_23_def Platforms_1_18_def Platforms_1_9_def
    using Platforms_1_0_distinct by simp
  then show ?thesis using addDrop_distinct_identity by simp
qed

section \<open>Version resolution\<close>

lemma latest_distinct:
  "distinct (map String ps) \<Longrightarrow> p \<in> set ps \<Longrightarrow> latest (String p) ps = Some p"
proof (induction ps rule: rev_induct)
  case Nil
  then show ?case by simp
next
  case (snoc q ps)
  then show ?case by (auto simp: latest_snoc)
qed

lemma latest_Some_member: "latest k ps = Some p \<Longrightarrow> p \<in> set ps \<and> String p = k"
proof (induction ps rule: rev_induct)
  case Nil
  then show ?case by (simp add: latest_Nil)
next
  case (snoc q ps)
  then show ?case by (auto simp: latest_snoc split: if_splits)
qed

lemma addDrop_nothing:
  "distinct (map String base) \<Longrightarrow> set (addDrop base [] []) = set base"
  by (auto simp: addDrop_member latest_Nil latest_distinct dest: latest_Some_member)

lemma SupportedPlatforms_go1_16: "SupportedPlatforms ''go1.16'' = Platforms_1_16"
  by (simp add: SupportedPlatforms_def HasPrefix_def NewVersion_def Split_def parse_segment_def
      is_digit_def platforms_def Check_def)

lemma SupportedPlatforms_go0_9: "SupportedPlatforms ''go0.9'' = Platforms_1_0"
  by (simp add: SupportedPlatforms_def HasPrefix_def NewVersion_def Split_def parse_segment_def
      is_digit_def platforms_def Check_def)

lemma darwin_arm64_1_16:
  "P ''darwin'' ''arm64'' True \<in> set Platforms_1_16"
  unfolding Platforms_1_16_def
  by (simp add: addDrop_member latest_Cons latest_Nil String_def)

lemma same_String_member:
  assumes "p \<in> set (addDrop base add drp)" "q \<in> set (addDrop base add drp)" "String p = String q"
  shows "p = q"
proof -
  define found where
    "found k = (case latest k add of None \<Rightarrow> latest k base | Some q \<Rightarrow> Some q)" for k
  from assms(1) have "found (String p) = Some p" by (simp add: addDrop_member found_def)
  moreover from assms(2) have "found (String q) = Some q" by (simp add: addDrop_member found_def)
  ultimately have "Some p = Some q" using assms(3) by (simp only:)
  then show ?thesis by (simp only: option.inject)
qed

lemma darwin_arm64_1_16_only:
  "P ''darwin'' ''arm64'' False \<notin> set Platforms_1_16"
proof
  assume "P ''darwin'' ''arm64'' False \<in> set Platforms_1_16"
  then have "P ''darwin'' ''arm64'' False = P ''darwin'' ''arm64'' True"
    using darwin_arm64_1_16 unfolding Platforms_1_16_def
    by (rule same_String_member) (simp add: String_def)
  then show False by simp
qed

lemma android_arm_latest: "P ''android'' ''arm'' False \<in> set PlatformsLatest"
proof -
  have "P ''android'' ''arm'' False \<in> set Platforms_1_21"
    unfolding Platforms_1_21_def
    by (simp add: addDrop_member latest_Cons latest_Nil String_def)
  moreover have "distinct (map String Platforms_1_21)"
    unfolding Platforms_1_21_def by (rule addDrop_distinct_String)
  ultimately show ?thesis
    by (simp add: PlatformsLatest_def Platforms_1_23_def Platforms_1_22_def addDrop_nothing)
qed

lemma android_arm_1_0: "P ''android'' ''arm'' False \<notin> set Platforms_1_0"
  by (simp add: Platforms_1_0_def)

text \<open>
  Claim C1, as stated, fails at \<^verbatim>\<open>"go0.9"\<close>: the version 0.9 parses and satisfies the first
  constraint of the table, \<^verbatim>\<open>"<= 1.0"\<close>, so the result is \<open>Platforms_1_0\<close>, which is not the
  newest snapshot (whatever the order of the entries: \<^verbatim>\<open>android/arm\<close> is in the newest
  snapshot only).
\<close>

theorem go0_9_not_latest: "set (SupportedPlatforms ''go0.9'') \<noteq> set PlatformsLatest"
  using android_arm_latest android_arm_1_0 by (auto simp: SupportedPlatforms_go0_9)

text \<open>
  Claim C1, amended. \<open>SupportedPlatforms\<close> of \<^verbatim>\<open>"go1.16"\<close> holds \<^verbatim>\<open>darwin/arm64\<close> with
  \<open>Default\<close> set, and no entry \<^verbatim>\<open>darwin/arm64\<close> without it; of \<^verbatim>\<open>"nonsense"\<close>, with no
  toolchain prefix, it is the newest snapshot \<open>PlatformsLatest\<close>; of \<^verbatim>\<open>"go0.9"\<close>, a version
  below the oldest entry of the ladder, it is the oldest snapshot \<open>Platforms_1_0\<close>.
\<close>

theorem SupportedPlatforms_resolution:
  "P ''darwin'' ''arm64'' True \<in> set (SupportedPlatforms ''go1.16'')
   \<and> P ''darwin'' ''arm64'' False \<notin> set (SupportedPlatforms ''go1.16'')
   \<and> SupportedPlatforms ''go0.9'' = Platforms_1_0
   \<and> SupportedPlatforms ''nonsense'' = PlatformsLatest"
proof -
  have "SupportedPlatforms ''nonsense'' = PlatformsLatest"
    by (simp add: SupportedPlatforms_def HasPrefix_def)
  then show ?thesis
    using darwin_arm64_1_16 darwin_arm64_1_16_only
    by (simp add: SupportedPlatforms_go1_16 SupportedPlatforms_go0_9)
qed

section \<open>The result of \<open>addDrop\<close> by identity\<close>

lemma split_at_first:
  "c \<notin> set xs \<Longrightarrow>
     takeWhile (\<lambda>x. x \<noteq> c) (xs @ c # ys) = xs \<and> dropWhile (\<lambda>x. x \<noteq> c) (xs @ c # ys) = c # ys"
  by (induction xs) auto

lemma String_inj:
  assumes "CHR ''/'' \<notin> set (OS p)" "CHR ''/'' \<notin> set (OS q)" "String p = String q"
  shows "identity p = identity q"
proof -
  have split: "takeWhile (\<lambda>c. c \<noteq> CHR ''/'') (String r) = OS r
      \<and> dropWhile (\<lambda>c. c \<noteq> CHR ''/'') (String r) = CHR ''/'' # Arch r"
    if "CHR ''/'' \<notin> set (OS r)" for r
    using split_at_first [OF that, of "Arch r"] by (simp add: String_def)
  from split [OF assms(1)] split [OF assms(2)] assms(3) show ?thesis
    by (simp add: identity_def)
qed

lemma identity_String: "identity p = identity q \<Longrightarrow> String p = String q"
  by (simp add: String_identity)

lemma plain_member: "plain ps \<Longrightarrow> p \<in> set ps \<Longrightarrow> CHR ''/'' \<notin> set (OS p)"
  by (simp add: plain_def list_all_iff)

lemma latest_None: "latest k ps = None \<longleftrightarrow> k \<notin> String ` set ps"
  by (auto simp: latest_def find_None_iff)

lemma last_with_latest:
  assumes "plain ps" "CHR ''/'' \<notin> set (OS q)"
  shows "last_with (identity q) ps = latest (String q) ps"
  unfolding last_with_def latest_def
proof (rule find_cong [OF refl])
  fix p assume "p \<in> set (rev ps)"
  then have "CHR ''/'' \<notin> set (OS p)" using assms(1) by (simp add: plain_member)
  then show "(identity p = identity q) = (String p = String q)"
    using assms(2) String_inj identity_String by blast
qed

lemma filter_distinct_single:
  "distinct (map f xs) \<Longrightarrow> q \<in> set xs \<Longrightarrow> filter (\<lambda>p. f p = f q) xs = [q]"
proof (induction xs)
  case Nil
  then show ?case by simp
next
  case (Cons x xs)
  then show ?case by (auto simp: filter_empty_conv image_iff)
qed

lemma addDrop_from: "p \<in> set (addDrop base add drp) \<Longrightarrow> p \<in> set base \<or> p \<in> set add"
  by (auto simp: addDrop_member split: option.splits dest: latest_Some_member)

lemma addDrop_identity_set:
  assumes "plain base" "plain add" "plain drp"
  shows "identity ` set (addDrop base add drp) =
           (identity ` set base \<union> identity ` set add) - identity ` set drp"
proof (intro equalityI subsetI)
  fix i assume "i \<in> identity ` set (addDrop base add drp)"
  then obtain p where p: "p \<in> set (addDrop base add drp)" "i = identity p" by auto
  from p(1) have "String p \<notin> String ` set drp" by (simp add: addDrop_member)
  then have "identity p \<notin> identity ` set drp" by (auto dest: identity_String)
  with p addDrop_from [OF p(1)]
  show "i \<in> (identity ` set base \<union> identity ` set add) - identity ` set drp" by auto
next
  fix i assume i: "i \<in> (identity ` set base \<union> identity ` set add) - identity ` set drp"
  then obtain p0 where p0: "p0 \<in> set base \<or> p0 \<in> set add" "i = identity p0" by auto
  have plain0: "CHR ''/'' \<notin> set (OS p0)" using p0(1) assms by (auto dest: plain_member)
  define found where
    "found k = (case latest k add of None \<Rightarrow> latest k base | Some q \<Rightarrow> Some q)" for k
  have member: "p \<in> set (addDrop base add drp) \<longleftrightarrow>
      String p \<notin> String ` set drp \<and> found (String p) = Some p" for p
    by (simp add: addDrop_member found_def)
  have "found (String p0) \<noteq> None"
    using p0(1) by (auto simp: found_def latest_None split: option.splits)
  then obtain q where q: "found (String p0) = Some q" by auto
  then have mem: "(q \<in> set base \<or> q \<in> set add) \<and> String q = String p0"
    by (auto simp: found_def split: option.splits dest: latest_Some_member)
  then have "CHR ''/'' \<notin> set (OS q)" using assms by (auto dest: plain_member)
  then have same: "identity q = i" using plain0 mem unfolding p0(2) by (intro String_inj) simp_all
  have "String q \<notin> String ` set drp"
  proof
    assume "String q \<in> String ` set drp"
    then obtain d where d: "d \<in> set drp" "String d = String q" by auto
    then have "CHR ''/'' \<notin> set (OS d)" using assms(3) by (simp add: plain_member)
    then have "identity d = identity p0" using plain0 d mem by (intro String_inj) simp_all
    then have "i \<in> identity ` set drp" using d(1) unfolding p0(2) by (metis imageI)
    with i show False by simp
  qed
  moreover have "found (String q) = Some q" using q mem by (simp only:)
  ultimately have "q \<in> set (addDrop base add drp)" by (simp only: member simp_thms)
  with same show "i \<in> identity ` set (addDrop base add drp)" by auto
qed

lemma addDrop_add_wins:
  assumes "plain add" "plain drp" "i \<in> identity ` set add" "i \<notin> identity ` set drp"
  shows "\<exists>q. last_with i add = Some q \<and> filter (\<lambda>p. identity p = i) (addDrop base add drp) = [q]"
proof -
  from assms(3) obtain p0 where p0: "p0 \<in> set add" "i = identity p0" by auto
  have plain0: "CHR ''/'' \<notin> set (OS p0)" using p0(1) assms(1) by (simp add: plain_member)
  have "latest (String p0) add \<noteq> None" using p0(1) by (simp add: latest_None)
  then obtain q where q: "latest (String p0) add = Some q" by auto
  then have mem: "q \<in> set add" "String q = String p0" by (auto dest: latest_Some_member)
  then have "CHR ''/'' \<notin> set (OS q)" using assms(1) by (simp add: plain_member)
  then have same: "identity q = i" using plain0 mem unfolding p0(2) by (intro String_inj) simp_all
  have last: "last_with i add = Some q"
    using last_with_latest [OF assms(1) plain0] q by (simp add: p0(2))
  have "String q \<notin> String ` set drp"
  proof
    assume "String q \<in> String ` set drp"
    then obtain d where d: "d \<in> set drp" "String d = String q" by auto
    then have "CHR ''/'' \<notin> set (OS d)" using assms(2) by (simp add: plain_member)
    then have "identity d = identity p0" using plain0 d mem by (intro String_inj) simp_all
    then have "i \<in> identity ` set drp" using d(1) unfolding p0(2) by (metis imageI)
    with assms(4) show False by simp
  qed
  then have "q \<in> set (addDrop base add drp)"
    using q mem(2) by (simp add: addDrop_member)
  then have "filter (\<lambda>p. identity p = identity q) (addDrop base add drp) = [q]"
    using addDrop_distinct_identity by (rule filter_distinct_single [rotated])
  with last same show ?thesis by simp
qed

text \<open>
  Claim C6, as stated, fails in two ways. An identity of \<open>base\<close> and \<open>add\<close> that is also in
  \<open>drop\<close> has no entry in the result, where the claim promises exactly one. And the maps
  are keyed by the string form \<open>OS/Arch\<close>, which two identities share when a name holds
  the separator: the platform with OS \<^verbatim>\<open>a/b\<close> and architecture \<^verbatim>\<open>c\<close> is dropped by a drop
  entry with OS \<^verbatim>\<open>a\<close> and architecture \<^verbatim>\<open>b/c\<close>, though its identity is not in \<open>drop\<close>.
\<close>

theorem addDrop_dropped_or_confused:
  "addDrop [P ''linux'' ''amd64'' True] [P ''linux'' ''amd64'' False] [P ''linux'' ''amd64'' False] = []
   \<and> addDrop [P ''a/b'' ''c'' True] [] [P ''a'' ''b/c'' False] = []"
  by (simp add: addDrop_def platformMap_def dropMap_def addDrop_put_def lookup_bool_def String_def)

text \<open>
  Claim C6, amended. For platform lists \<open>base\<close>, \<open>add\<close> and \<open>drop\<close> in which no OS name holds
  the separator \<^verbatim>\<open>/\<close>: the identities of \<open>addDrop base add drop\<close> are those of \<open>base\<close> and
  \<open>add\<close> without those of \<open>drop\<close>; no identity occurs twice in the result; and for every
  identity that occurs in \<open>add\<close> (also when it occurs in \<open>base\<close> as well) and not in \<open>drop\<close>,
  the one entry of the result with this identity is the last entry of \<open>add\<close> with it, and
  so carries that entry's \<open>Default\<close> flag.
\<close>

theorem addDrop_identities:
  assumes "plain base" and "plain add" and "plain drp"
  shows "identity ` set (addDrop base add drp) =
           (identity ` set base \<union> identity ` set add) - identity ` set drp
         \<and> distinct (map identity (addDrop base add drp))
         \<and> (i \<in> identity ` set add \<and> i \<notin> identity ` set drp \<longrightarrow>
              (\<exists>q. last_with i add = Some q
                 \<and> filter (\<lambda>p. identity p = i) (addDrop base add drp) = [q]))"
proof (intro conjI impI)
  show "identity ` set (addDrop base add drp) =
          (identity ` set base \<union> identity ` set add) - identity ` set drp"
    using assms by (rule addDrop_identity_set)
  show "distinct (map identity (addDrop base add drp))"
    by (rule addDrop_distinct_identity)
  assume "i \<in> identity ` set add \<and> i \<notin> identity ` set drp"
  then show "\<exists>q. last_with i add = Some q
      \<and> filter (\<lambda>p. identity p = i) (addDrop base add drp) = [q]"
    using assms(2,3) by (intro addDrop_add_wins) simp_all
qed

text \<open>
  The amended claim at work: \<^verbatim>\<open>linux/amd64\<close> is in \<open>base\<close> with \<open>Default\<close> set and in \<open>add\<close>
  without it, \<^verbatim>\<open>darwin/386\<close> is dropped.
\<close>

theorem addDrop_identities_witness:
  "plain [P ''linux'' ''amd64'' True, P ''darwin'' ''386'' True]
   \<and> plain [P ''linux'' ''amd64'' False, P ''js'' ''wasm'' True]
   \<and> plain [P ''darwin'' ''386'' False]
   \<and> identity ` set (addDrop [P ''linux'' ''amd64'' True, P ''darwin'' ''386'' True]
        [P ''linux'' ''amd64'' False, P ''js'' ''wasm'' True] [P ''darwin'' ''386'' False])
       = {(''linux'', ''amd64''), (''js'', ''wasm'')}
   \<and> filter (\<lambda>p. identity p = (''linux'', ''amd64''))
        (addDrop [P ''linux'' ''amd64'' True, P ''darwin'' ''386'' True]
          [P ''linux'' ''amd64'' False, P ''js'' ''wasm'' True] [P ''darwin'' ''386'' False])
       = [P ''linux'' ''amd64'' False]"
proof -
  have h: "plain [P ''linux'' ''amd64'' True, P ''darwin'' ''386'' True]"
    "plain [P ''linux'' ''amd64'' False, P ''js'' ''wasm'' True]"
    "plain [P ''darwin'' ''386'' False]"
    by (simp_all add: plain_def)
  show ?thesis
    using h addDrop_identities [OF h, of "(''linux'', ''amd64'')"]
    by (auto simp: identity_def last_with_def)
qed

section \<open>The maps of \<open>Platforms\<close>\<close>

lemma lookup_true_map: "lookup_bool (true_map ks m) k \<longleftrightarrow> k \<in> set ks \<or> lookup_bool m k"
  using lookup_fold_True [of "\<lambda>k. k" ks m k] by (simp add: true_map_def)

lemma true_map_empty: "true_map ks m = [] \<longleftrightarrow> ks = [] \<and> m = []"
proof (induction ks arbitrary: m)
  case Nil
  show ?case by (simp add: true_map_def)
next
  case (Cons k ks)
  have "AList.update k True m \<noteq> []" by (cases m) auto
  with Cons show ?case by (simp add: true_map_def)
qed

lemma true_map_keys: "fst ` set (true_map ks m) = set ks \<union> fst ` set m"
proof (induction ks arbitrary: m)
  case Nil
  show ?case by (simp add: true_map_def)
next
  case (Cons k ks)
  have "fst ` set (true_map (k # ks) m) = fst ` set (true_map ks (AList.update k True m))"
    by (simp add: true_map_def)
  also have "\<dots> = set ks \<union> fst ` set (AList.update k True m)" by (rule Cons.IH)
  also have "\<dots> = set (k # ks) \<union> fst ` set m" by (auto simp: dom_update)
  finally show ?case .
qed

lemma parse_flags_eq:
  "parse_flags vs (ign, inc) =
     (if [] \<in> set vs then Inl IndexOutOfRange
      else Inr (true_map (excluded_names vs) ign, true_map (included_names vs) inc))"
proof (induction vs arbitrary: ign inc)
  case Nil
  show ?case by (simp add: true_map_def excluded_names_def included_names_def)
next
  case (Cons v vs)
  show ?case
  proof (cases v)
    case Nil
    then show ?thesis by simp
  next
    case (Cons c rest)
    then show ?thesis
      by (simp add: Cons.IH true_map_def excluded_names_def included_names_def negated_def)
  qed
qed

lemma parse_osarch_eq:
  "parse_osarch vs (ign, inc) =
     (if [] \<in> OS ` set vs then Inl IndexOutOfRange
      else Inr (true_map (map String (pairExcludes vs)) ign,
                true_map (map String (pairIncludes vs)) inc))"
proof (induction vs arbitrary: ign inc)
  case Nil
  show ?case by (simp add: true_map_def pairExcludes_def pairIncludes_def)
next
  case (Cons v vs)
  show ?case
  proof (cases "OS v")
    case Nil
    then show ?thesis by simp
  next
    case (Cons c rest)
    then show ?thesis
      by (simp add: Cons.IH true_map_def pairExcludes_def pairIncludes_def negated_def)
  qed
qed

lemma lookup_true_map_Nil: "lookup_bool (true_map ks []) k \<longleftrightarrow> k \<in> set ks"
  by (simp add: lookup_true_map) (simp add: lookup_bool_def)

lemma excluded_dropped:
  "excluded (true_map (excluded_names (flagArch p)) []) (true_map (included_names (flagArch p)) [])
     (true_map (excluded_names (flagOS p)) []) (true_map (included_names (flagOS p)) [])
     (true_map (map String (pairExcludes (flagOSArch p))) [])
     (true_map (map String (pairIncludes (flagOSArch p))) []) platform
   = dropped p platform"
  by (simp add: excluded_def dropped_def Let_def lookup_true_map_Nil true_map_empty)

lemma well_formed_iff:
  "well_formed p \<longleftrightarrow>
     [] \<notin> set (flagOS p) \<and> [] \<notin> set (flagArch p) \<and> [] \<notin> OS ` set (flagOSArch p)"
  by (auto simp: well_formed_def list_all_iff image_iff)

lemma Platforms_well_formed:
  assumes "well_formed p"
  shows "Platforms p supported =
     Inr (filter (\<lambda>platform. \<not> dropped p platform)
        (determine supported (true_map (included_names (flagArch p)) [])
           (true_map (included_names (flagOS p)) [])
           (true_map (map String (pairExcludes (flagOSArch p))) [])
           (true_map (map String (pairIncludes (flagOSArch p))) [])))"
  using assms unfolding well_formed_iff
  by (simp add: Platforms_def parse_flags_eq parse_osarch_eq excluded_dropped Let_def)

lemma Platforms_ill_formed:
  assumes "\<not> well_formed p"
  shows "Platforms p supported = Inl IndexOutOfRange"
  using assms unfolding well_formed_iff
  by (auto simp: Platforms_def parse_flags_eq parse_osarch_eq)

lemma determine_defaults:
  "determine supported [] [] ignoreOSArch [] =
     map (\<lambda>platform. platform\<lparr>Default := False\<rparr>) (filter Default supported)"
  by (simp add: determine_def)

lemma determine_arch_only:
  "determine supported includeArch [] ignoreOSArch [] =
     map (\<lambda>platform. platform\<lparr>Default := False\<rparr>) (filter Default supported)"
  by (simp add: determine_def)

section \<open>Requests without included pairs\<close>

lemma all_negated_names:
  assumes "list_all negated vs"
  shows "included_names vs = []" and "list_all (\<lambda>v. v \<noteq> []) vs"
  using assms by (auto simp: included_names_def list_all_iff negated_def)

lemma all_negated_pairs:
  assumes "list_all (\<lambda>v. negated (OS v)) vs"
  shows "pairIncludes vs = []" and "list_all (\<lambda>v. OS v \<noteq> []) vs"
  using assms by (auto simp: pairIncludes_def list_all_iff negated_def)

lemma dropped_clear [simp]: "dropped p (platform\<lparr>Default := False\<rparr>) = dropped p platform"
  by (simp add: dropped_def String_def)

text \<open>
  Claim C5. For every snapshot, when the filter request holds no include filter at all
  (every OS token, every architecture token and every pair is negated; there may be none),
  the candidates of \<open>Platforms\<close> are exactly the \<open>Default\<close>-flagged platforms of the
  snapshot, and the result is what the exclusion pass leaves of them: those whose pair, OS
  and architecture are not excluded. For the snapshot of \<^verbatim>\<open>darwin/amd64\<close> with \<open>Default\<close>
  and \<^verbatim>\<open>android/arm\<close> without, and no filters, the result is exactly \<^verbatim>\<open>darwin/amd64\<close>.
\<close>

theorem Platforms_no_includes:
  assumes "list_all negated (flagOS p)" and "list_all negated (flagArch p)"
    and "list_all (\<lambda>v. negated (OS v)) (flagOSArch p)"
  shows "Platforms p supported =
           Inr (filter (\<lambda>platform.
                  String platform \<notin> String ` set (pairExcludes (flagOSArch p))
                  \<and> OS platform \<notin> set (excluded_names (flagOS p))
                  \<and> Arch platform \<notin> set (excluded_names (flagArch p)))
                (map (\<lambda>platform. platform\<lparr>Default := False\<rparr>) (filter Default supported)))
         \<and> Platforms \<lparr>flagOS = [], flagArch = [], flagOSArch = []\<rparr>
               [P ''darwin'' ''amd64'' True, P ''android'' ''arm'' False]
             = Inr [P ''darwin'' ''amd64'' False]"
proof
  have wf: "well_formed p"
    using assms by (simp add: well_formed_def all_negated_names all_negated_pairs)
  have none: "included_names (flagOS p) = []" "included_names (flagArch p) = []"
    "pairIncludes (flagOSArch p) = []"
    using assms by (simp_all add: all_negated_names all_negated_pairs)
  have "dropped p platform \<longleftrightarrow>
      \<not> (String platform \<notin> String ` set (pairExcludes (flagOSArch p))
         \<and> OS platform \<notin> set (excluded_names (flagOS p))
         \<and> Arch platform \<notin> set (excluded_names (flagArch p)))" for platform
    by (simp add: dropped_def none)
  then show "Platforms p supported =
           Inr (filter (\<lambda>platform.
                  String platform \<notin> String ` set (pairExcludes (flagOSArch p))
                  \<and> OS platform \<notin> set (excluded_names (flagOS p))
                  \<and> Arch platform \<notin> set (excluded_names (flagArch p)))
                (map (\<lambda>platform. platform\<lparr>Default := False\<rparr>) (filter Default supported)))"
    by (simp add: Platforms_well_formed [OF wf] none true_map_def determine_defaults)
  show "Platforms \<lparr>flagOS = [], flagArch = [], flagOSArch = []\<rparr>
               [P ''darwin'' ''amd64'' True, P ''android'' ''arm'' False]
             = Inr [P ''darwin'' ''amd64'' False]"
    by code_simp
qed

theorem Platforms_no_includes_witness:
  "list_all negated [''!windows''] \<and> list_all negated []
   \<and> list_all (\<lambda>v. negated (OS v)) [P ''!linux'' ''arm'' False]
   \<and> Platforms \<lparr>flagOS = [''!windows''], flagArch = [], flagOSArch = [P ''!linux'' ''arm'' False]\<rparr>
        [P ''linux'' ''arm'' True, P ''windows'' ''386'' True, P ''darwin'' ''amd64'' True,
         P ''android'' ''arm'' False]
       = Inr [P ''darwin'' ''amd64'' False]"
proof -
  have h: "list_all negated (flagOS \<lparr>flagOS = [''!windows''], flagArch = [],
              flagOSArch = [P ''!linux'' ''arm'' False]\<rparr>)"
    "list_all negated (flagArch \<lparr>flagOS = [''!windows''], flagArch = [],
              flagOSArch = [P ''!linux'' ''arm'' False]\<rparr>)"
    "list_all (\<lambda>v. negated (OS v)) (flagOSArch \<lparr>flagOS = [''!windows''], flagArch = [],
              flagOSArch = [P ''!linux'' ''arm'' False]\<rparr>)"
    by (simp_all add: negated_def)
  show ?thesis
    using h Platforms_no_includes [OF h, of "[P ''linux'' ''arm'' True, P ''windows'' ''386'' True,
      P ''darwin'' ''amd64'' True, P ''android'' ''arm'' False]"]
    by (simp add: pairExcludes_def excluded_names_def negated_def String_def)
qed

text \<open>
  Claim C10. For every snapshot, when only the architecture include set is non-empty (every
  OS token and every pair is negated, no architecture token is empty, and some
  architecture token is not negated), \<open>Platforms\<close> returns exactly the snapshot's
  \<open>Default\<close>-flagged platforms whose architecture is in the include set, minus the
  excluded ones; not all snapshot platforms with those architectures.
\<close>

theorem Platforms_arch_only:
  assumes "list_all negated (flagOS p)" and "list_all (\<lambda>v. negated (OS v)) (flagOSArch p)"
    and "list_all (\<lambda>v. v \<noteq> []) (flagArch p)" and "included_names (flagArch p) \<noteq> []"
  shows "Platforms p supported =
           Inr (filter (\<lambda>platform.
                  Arch platform \<in> set (included_names (flagArch p))
                  \<and> String platform \<notin> String ` set (pairExcludes (flagOSArch p))
                  \<and> OS platform \<notin> set (excluded_names (flagOS p))
                  \<and> Arch platform \<notin> set (excluded_names (flagArch p)))
                (map (\<lambda>platform. platform\<lparr>Default := False\<rparr>) (filter Default supported)))"
proof -
  have wf: "well_formed p"
    using assms by (simp add: well_formed_def all_negated_names all_negated_pairs)
  have none: "included_names (flagOS p) = []" "pairIncludes (flagOSArch p) = []"
    using assms by (simp_all add: all_negated_names all_negated_pairs)
  have "dropped p platform \<longleftrightarrow>
      \<not> (Arch platform \<in> set (included_names (flagArch p))
         \<and> String platform \<notin> String ` set (pairExcludes (flagOSArch p))
         \<and> OS platform \<notin> set (excluded_names (flagOS p))
         \<and> Arch platform \<notin> set (excluded_names (flagArch p)))" for platform
    using assms(4) by (auto simp: dropped_def none)
  then show ?thesis
    by (simp add: Platforms_well_formed [OF wf] none true_map_def determine_arch_only)
qed

theorem Platforms_arch_only_witness:
  "list_all negated [] \<and> list_all (\<lambda>v. negated (OS v)) []
   \<and> list_all (\<lambda>v. v \<noteq> []) [''arm''] \<and> included_names [''arm''] \<noteq> []
   \<and> Platforms \<lparr>flagOS = [], flagArch = [''arm''], flagOSArch = []\<rparr>
        [P ''linux'' ''arm'' True, P ''android'' ''arm'' False, P ''linux'' ''amd64'' True]
       = Inr [P ''linux'' ''arm'' False]"
proof -
  have h: "list_all negated (flagOS \<lparr>flagOS = [], flagArch = [''arm''], flagOSArch = []\<rparr>)"
    "list_all (\<lambda>v. negated (OS v)) (flagOSArch \<lparr>flagOS = [], flagArch = [''arm''], flagOSArch = []\<rparr>)"
    "list_all (\<lambda>v. v \<noteq> []) (flagArch \<lparr>flagOS = [], flagArch = [''arm''], flagOSArch = []\<rparr>)"
    "included_names (flagArch \<lparr>flagOS = [], flagArch = [''arm''], flagOSArch = []\<rparr>) \<noteq> []"
    by (simp_all add: negated_def included_names_def)
  show ?thesis
    using h Platforms_arch_only [OF h, of "[P ''linux'' ''arm'' True, P ''android'' ''arm'' False,
      P ''linux'' ''amd64'' True]"]
    by (simp add: pairExcludes_def excluded_names_def included_names_def negated_def String_def)
qed

text \<open>
  Claim C7. With only an OS include set, \<^verbatim>\<open>linux\<close>, and the snapshot \<^verbatim>\<open>linux/amd64\<close>,
  \<^verbatim>\<open>linux/arm\<close>, \<^verbatim>\<open>darwin/amd64\<close> (whatever their \<open>Default\<close> flags), the result is every
  snapshot platform whose OS is \<^verbatim>\<open>linux\<close>: \<^verbatim>\<open>linux/amd64\<close> and \<^verbatim>\<open>linux/arm\<close>. Adding the
  architecture exclusion \<^verbatim>\<open>!arm\<close> to the request drops the \<^verbatim>\<open>arm\<close> entry: the result is
  exactly \<^verbatim>\<open>linux/amd64\<close>.
\<close>

theorem Platforms_os_only:
  "Platforms \<lparr>flagOS = [''linux''], flagArch = [], flagOSArch = []\<rparr>
     [P ''linux'' ''amd64'' d1, P ''linux'' ''arm'' d2, P ''darwin'' ''amd64'' d3]
   = Inr [P ''linux'' ''amd64'' False, P ''linux'' ''arm'' False]
   \<and> Platforms \<lparr>flagOS = [''linux''], flagArch = [''!arm''], flagOSArch = []\<rparr>
     [P ''linux'' ''amd64'' d1, P ''linux'' ''arm'' d2, P ''darwin'' ''amd64'' d3]
   = Inr [P ''linux'' ''amd64'' False]"
  by code_simp

text \<open>
  Claim C4 fails on the code. \<^verbatim>\<open>appendPlatformValue.Set\<close> accepts the pair token
  \<^verbatim>\<open>/amd64\<close>, which has exactly one separator, and stores a pair with an empty OS;
  \<open>Platforms\<close> then indexes that OS at position 0 and panics, whatever the snapshot is.
\<close>

theorem Platforms_empty_OS_panics:
  "appendPlatformValue_Set [] ''/amd64'' = ([P [] ''amd64'' False], None)
   \<and> Platforms \<lparr>flagOS = [], flagArch = [], flagOSArch = [P [] ''amd64'' False]\<rparr> supported
       = Inl IndexOutOfRange"
proof
  show "appendPlatformValue_Set [] ''/amd64'' = ([P [] ''amd64'' False], None)"
    by code_simp
  show "Platforms \<lparr>flagOS = [], flagArch = [], flagOSArch = [P [] ''amd64'' False]\<rparr> supported
       = Inl IndexOutOfRange"
    by (simp add: Platforms_def)
qed

section \<open>A token that is only the negation marker\<close>

lemma included_names_lone: "included_names (xs @ ''!'' # ys) = included_names (xs @ ys)"
  by (simp add: included_names_def negated_def)

lemma excluded_names_lone:
  "set (excluded_names (xs @ ''!'' # ys)) = insert [] (set (excluded_names (xs @ ys)))"
  by (auto simp: excluded_names_def negated_def)

lemma Platforms_lone_OS:
  "Platforms (p\<lparr>flagOS := xs @ ''!'' # ys\<rparr>) supported =
     (case Platforms (p\<lparr>flagOS := xs @ ys\<rparr>) supported of
        Inl e \<Rightarrow> Inl e
      | Inr result \<Rightarrow> Inr (filter (\<lambda>platform. OS platform \<noteq> []) result))"
proof (cases "well_formed (p\<lparr>flagOS := xs @ ys\<rparr>)")
  case True
  then have wf: "well_formed (p\<lparr>flagOS := xs @ ''!'' # ys\<rparr>)"
    by (simp add: well_formed_def)
  have "dropped (p\<lparr>flagOS := xs @ ''!'' # ys\<rparr>) platform \<longleftrightarrow>
      dropped (p\<lparr>flagOS := xs @ ys\<rparr>) platform \<or> OS platform = []" for platform
    by (auto simp: dropped_def included_names_lone excluded_names_lone)
  then show ?thesis
    by (simp add: Platforms_well_formed [OF True] Platforms_well_formed [OF wf]
        included_names_lone conj_commute)
next
  case False
  then have "\<not> well_formed (p\<lparr>flagOS := xs @ ''!'' # ys\<rparr>)"
    by (simp add: well_formed_def)
  with False show ?thesis by (simp add: Platforms_ill_formed)
qed

lemma Platforms_lone_Arch:
  "Platforms (p\<lparr>flagArch := xs @ ''!'' # ys\<rparr>) supported =
     (case Platforms (p\<lparr>flagArch := xs @ ys\<rparr>) supported of
        Inl e \<Rightarrow> Inl e
      | Inr result \<Rightarrow> Inr (filter (\<lambda>platform. Arch platform \<noteq> []) result))"
proof (cases "well_formed (p\<lparr>flagArch := xs @ ys\<rparr>)")
  case True
  then have wf: "well_formed (p\<lparr>flagArch := xs @ ''!'' # ys\<rparr>)"
    by (simp add: well_formed_def)
  have "dropped (p\<lparr>flagArch := xs @ ''!'' # ys\<rparr>) platform \<longleftrightarrow>
      dropped (p\<lparr>flagArch := xs @ ys\<rparr>) platform \<or> Arch platform = []" for platform
    by (auto simp: dropped_def included_names_lone excluded_names_lone)
  then show ?thesis
    by (simp add: Platforms_well_formed [OF True] Platforms_well_formed [OF wf]
        included_names_lone conj_commute)
next
  case False
  then have "\<not> well_formed (p\<lparr>flagArch := xs @ ''!'' # ys\<rparr>)"
    by (simp add: well_formed_def)
  with False show ?thesis by (simp add: Platforms_ill_formed)
qed

lemma appendStringValue_Set_lone: "appendStringValue_Set s ''!'' = (appendIfMissing s ''!'', None)"
  by (simp add: appendStringValue_Set_def Split_def ToLower_def to_lower_def)

text \<open>
  Claim C2, as stated, fails: for the OS token \<^verbatim>\<open>!\<close> neither parsing nor resolution reports
  an error. \<^verbatim>\<open>appendStringValue.Set\<close> stores the token and returns \<^verbatim>\<open>nil\<close>, and \<open>Platforms\<close>
  returns a result.
\<close>

theorem lone_negation_not_reported:
  "appendStringValue_Set [] ''!'' = ([''!''], None)
   \<and> Platforms \<lparr>flagOS = [''!''], flagArch = [], flagOSArch = []\<rparr> [P ''linux'' ''amd64'' True]
       = Inr [P ''linux'' ''amd64'' False]"
  by code_simp

text \<open>
  Claim C2, amended. A token that consists only of the negation marker \<^verbatim>\<open>!\<close>, in the OS list
  or in the architecture list, is not reported to the caller: \<^verbatim>\<open>appendStringValue.Set\<close>
  stores it like any other token and returns no error, and \<open>Platforms\<close> consumes it as the
  exclusion of the empty name. The outcome is that of the request without the token, less
  the platforms whose OS (for the OS list) or architecture (for the architecture list) is
  the empty string.
\<close>

theorem lone_negation_consumed:
  "appendStringValue_Set s ''!'' = (appendIfMissing s ''!'', None)
   \<and> Platforms (p\<lparr>flagOS := xs @ ''!'' # ys\<rparr>) supported =
       (case Platforms (p\<lparr>flagOS := xs @ ys\<rparr>) supported of
          Inl e \<Rightarrow> Inl e
        | Inr result \<Rightarrow> Inr (filter (\<lambda>platform. OS platform \<noteq> []) result))
   \<and> Platforms (p\<lparr>flagArch := xs @ ''!'' # ys\<rparr>) supported =
       (case Platforms (p\<lparr>flagArch := xs @ ys\<rparr>) supported of
          Inl e \<Rightarrow> Inl e
        | Inr result \<Rightarrow> Inr (filter (\<lambda>platform. Arch platform \<noteq> []) result))"
  using appendStringValue_Set_lone Platforms_lone_OS Platforms_lone_Arch by (intro conjI)

section \<open>Requests with included pairs\<close>

lemma supportedMap_lookup: "map_of (supportedMap supported) k = latest k supported"
proof -
  have "addDrop_put [] = (\<lambda>platform m. AList.update (String platform) platform m)"
    by (intro ext) (simp add: addDrop_put_def lookup_bool_def)
  then have "supportedMap supported = fold (addDrop_put []) supported []"
    by (simp add: supportedMap_def)
  then show ?thesis
    by (simp add: fold_put_map_of lookup_bool_def split: option.splits)
qed

lemma determine_pairs_set:
  assumes "includeOSArch \<noteq> []"
  shows "set (determine supported includeArch includeOS ignoreOSArch includeOSArch) =
     {platform\<lparr>Default := False\<rparr> | platform k.
        k \<in> fst ` set includeOSArch \<and> latest k supported = Some platform
        \<and> \<not> lookup_bool ignoreOSArch k}"
proof -
  have branch: "set (case latest k supported of None \<Rightarrow> []
        | Some platform \<Rightarrow> if \<not> lookup_bool ignoreOSArch k then [platform\<lparr>Default := False\<rparr>] else [])
      = {platform\<lparr>Default := False\<rparr> | platform.
           latest k supported = Some platform \<and> \<not> lookup_bool ignoreOSArch k}" for k
    by (cases "latest k supported") auto
  have "set (determine supported includeArch includeOS ignoreOSArch includeOSArch) =
      (\<Union>k \<in> fst ` set includeOSArch.
         {platform\<lparr>Default := False\<rparr> | platform.
            latest k supported = Some platform \<and> \<not> lookup_bool ignoreOSArch k})"
    using assms by (simp add: determine_def supportedMap_lookup branch)
  also have "\<dots> = {platform\<lparr>Default := False\<rparr> | platform k.
        k \<in> fst ` set includeOSArch \<and> latest k supported = Some platform
        \<and> \<not> lookup_bool ignoreOSArch k}"
    by blast
  finally show ?thesis .
qed

lemma clear_Default_identity:
  "identity a = identity b \<Longrightarrow> a\<lparr>Default := False\<rparr> = b\<lparr>Default := False\<rparr>"
  by (cases a, cases b) (simp add: identity_def)

lemma plain_pairExcludes: "plain vs \<Longrightarrow> plain (pairExcludes vs)"
  by (auto simp: plain_def pairExcludes_def list_all_iff dest: in_set_dropD)

lemma plain_pairIncludes: "plain vs \<Longrightarrow> plain (pairIncludes vs)"
  by (auto simp: plain_def pairIncludes_def list_all_iff)

lemma plain_same:
  assumes "plain xs" "plain ys" "x \<in> set xs" "y \<in> set ys"
  shows "String x = String y \<longleftrightarrow> identity x = identity y"
  using String_inj [of x y] identity_String [of x y] assms by (auto dest: plain_member)

lemma determine_pairs_request:
  assumes "pairIncludes vs \<noteq> []"
  shows "set (determine supported includeArch includeOS
            (true_map (map String (pairExcludes vs)) [])
            (true_map (map String (pairIncludes vs)) [])) =
     {platform\<lparr>Default := False\<rparr> | platform k.
        k \<in> String ` set (pairIncludes vs) \<and> latest k supported = Some platform
        \<and> k \<notin> String ` set (pairExcludes vs)}"
proof -
  have "true_map (map String (pairIncludes vs)) [] \<noteq> []"
    using assms by (simp add: true_map_empty)
  then show ?thesis
    by (simp add: determine_pairs_set true_map_keys lookup_true_map_Nil)
qed

lemma dropped_pairs:
  assumes "pairIncludes (flagOSArch p) \<noteq> []"
  shows "dropped p platform \<longleftrightarrow>
     String platform \<in> String ` set (pairExcludes (flagOSArch p))
     \<or> OS platform \<in> set (excluded_names (flagOS p))
     \<or> Arch platform \<in> set (excluded_names (flagArch p))"
  using assms by (simp add: dropped_def)

text \<open>
  Claim C3, as stated, fails: the exclusion pass also drops an included pair whose OS is in
  the OS exclude set (or whose architecture is in the architecture exclude set). The pair
  \<^verbatim>\<open>linux/amd64\<close> is included, is in the snapshot and is not in the pair exclude set, and
  yet, with the OS token \<^verbatim>\<open>!linux\<close>, it is not in the result. And since pairs are looked up
  by their string form, the included pair with OS \<^verbatim>\<open>a\<close> and architecture \<^verbatim>\<open>b/c\<close> yields the
  snapshot platform with OS \<^verbatim>\<open>a/b\<close> and architecture \<^verbatim>\<open>c\<close>, which is not an included pair.
\<close>

theorem included_pair_excluded_by_OS:
  "Platforms \<lparr>flagOS = [''!linux''], flagArch = [], flagOSArch = [P ''linux'' ''amd64'' False]\<rparr>
     [P ''linux'' ''amd64'' True] = Inr []
   \<and> Platforms \<lparr>flagOS = [], flagArch = [], flagOSArch = [P ''a'' ''b/c'' False]\<rparr>
     [P ''a/b'' ''c'' True] = Inr [P ''a/b'' ''c'' False]"
  by code_simp

text \<open>
  Claim C3, amended. For every snapshot and every filter request without empty tokens, no
  OS name of either holding the separator \<^verbatim>\<open>/\<close>, with at least one included OS/Arch pair:
  \<open>Platforms\<close> returns exactly the set of included pairs that exist in the snapshot, are
  not in the pair exclude set, and whose OS is not in the OS exclude set and whose
  architecture is not in the architecture exclude set (with \<open>Default\<close> cleared). The OS
  include and architecture include lists have no effect on the result in this case.
\<close>

theorem Platforms_pair_includes:
  assumes "well_formed p" and "pairIncludes (flagOSArch p) \<noteq> []"
    and "plain supported" and "plain (flagOSArch p)"
  shows "\<exists>result. Platforms p supported = Inr result
           \<and> set result = (\<lambda>platform. platform\<lparr>Default := False\<rparr>) `
                {platform \<in> set supported.
                   identity platform \<in> identity ` set (pairIncludes (flagOSArch p))
                   \<and> identity platform \<notin> identity ` set (pairExcludes (flagOSArch p))
                   \<and> OS platform \<notin> set (excluded_names (flagOS p))
                   \<and> Arch platform \<notin> set (excluded_names (flagArch p))}"
proof -
  define PI where "PI = pairIncludes (flagOSArch p)"
  define PE where "PE = pairExcludes (flagOSArch p)"
  define result where "result = filter (\<lambda>platform. \<not> dropped p platform)
        (determine supported (true_map (included_names (flagArch p)) [])
           (true_map (included_names (flagOS p)) [])
           (true_map (map String (pairExcludes (flagOSArch p))) [])
           (true_map (map String (pairIncludes (flagOSArch p))) []))"
  have plainPI: "plain PI" and plainPE: "plain PE"
    using assms(4) by (simp_all add: PI_def PE_def plain_pairIncludes plain_pairExcludes)
  have res: "Platforms p supported = Inr result"
    using assms(1) by (simp add: result_def Platforms_well_formed)
  have mem: "x \<in> set result \<longleftrightarrow>
      (\<exists>platform k. x = platform\<lparr>Default := False\<rparr> \<and> k \<in> String ` set PI
          \<and> latest k supported = Some platform \<and> k \<notin> String ` set PE)
      \<and> String x \<notin> String ` set PE
      \<and> OS x \<notin> set (excluded_names (flagOS p))
      \<and> Arch x \<notin> set (excluded_names (flagArch p))" for x
    unfolding result_def PI_def PE_def
    by (simp add: determine_pairs_request [OF assms(2)] dropped_pairs [OF assms(2)])
  have "set result = (\<lambda>platform. platform\<lparr>Default := False\<rparr>) `
      {platform \<in> set supported.
         identity platform \<in> identity ` set PI \<and> identity platform \<notin> identity ` set PE
         \<and> OS platform \<notin> set (excluded_names (flagOS p))
         \<and> Arch platform \<notin> set (excluded_names (flagArch p))}" (is "_ = ?spec")
  proof (intro equalityI subsetI)
    fix x assume "x \<in> set result"
    then obtain platform k where x: "x = platform\<lparr>Default := False\<rparr>"
      and k: "k \<in> String ` set PI" "latest k supported = Some platform"
      and keep: "String x \<notin> String ` set PE" "OS x \<notin> set (excluded_names (flagOS p))"
        "Arch x \<notin> set (excluded_names (flagArch p))"
      unfolding mem by blast
    from k(2) have platform: "platform \<in> set supported" "String platform = k"
      by (auto dest: latest_Some_member)
    from k(1) platform(2) obtain v where v: "v \<in> set PI" "String platform = String v" by auto
    have "identity platform = identity v"
      using plain_same [OF assms(3) plainPI platform(1) v(1)] v(2) by simp
    then have a: "identity platform \<in> identity ` set PI" using v(1) by (metis imageI)
    have same: "String x = String platform" "OS x = OS platform" "Arch x = Arch platform"
      by (simp_all add: x String_def)
    have b: "identity platform \<notin> identity ` set PE"
    proof
      assume "identity platform \<in> identity ` set PE"
      then obtain e where "e \<in> set PE" "identity platform = identity e" by auto
      then have "String platform \<in> String ` set PE" by (metis identity_String imageI)
      with keep(1) same(1) show False by simp
    qed
    from platform(1) a b keep(2,3) same(2,3) show "x \<in> ?spec" unfolding x by auto
  next
    fix x assume "x \<in> ?spec"
    then obtain platform where x: "x = platform\<lparr>Default := False\<rparr>"
      and platform: "platform \<in> set supported" "identity platform \<in> identity ` set PI"
        "identity platform \<notin> identity ` set PE"
        "OS platform \<notin> set (excluded_names (flagOS p))"
        "Arch platform \<notin> set (excluded_names (flagArch p))"
      by auto
    have same: "String x = String platform" "OS x = OS platform" "Arch x = Arch platform"
      by (simp_all add: x String_def)
    from platform(2) obtain v where v: "v \<in> set PI" "identity platform = identity v" by auto
    then have inPI: "String platform \<in> String ` set PI" by (metis identity_String imageI)
    have "latest (String platform) supported \<noteq> None"
      using platform(1) by (simp add: latest_None)
    then obtain q where q: "latest (String platform) supported = Some q" by auto
    then have qmem: "q \<in> set supported" "String q = String platform"
      by (auto dest: latest_Some_member)
    have "identity q = identity platform"
      using plain_same [OF assms(3) assms(3) qmem(1) platform(1)] qmem(2) by simp
    then have xq: "x = q\<lparr>Default := False\<rparr>" unfolding x by (rule clear_Default_identity [symmetric])
    have notPE: "String platform \<notin> String ` set PE"
    proof
      assume "String platform \<in> String ` set PE"
      then obtain e where e: "e \<in> set PE" "String platform = String e" by auto
      have "identity platform = identity e"
        using plain_same [OF assms(3) plainPE platform(1) e(1)] e(2) by simp
      with e(1) platform(3) show False by (metis imageI)
    qed
    have "\<exists>platform k. x = platform\<lparr>Default := False\<rparr> \<and> k \<in> String ` set PI
        \<and> latest k supported = Some platform \<and> k \<notin> String ` set PE"
    proof (intro exI conjI)
      show "x = q\<lparr>Default := False\<rparr>" by (rule xq)
      show "String platform \<in> String ` set PI" by (rule inPI)
      show "latest (String platform) supported = Some q" by (rule q)
      show "String platform \<notin> String ` set PE" by (rule notPE)
    qed
    moreover have "String x \<notin> String ` set PE" using notPE by (simp add: same)
    moreover have "OS x \<notin> set (excluded_names (flagOS p))"
      using platform(4) by (simp add: same)
    moreover have "Arch x \<notin> set (excluded_names (flagArch p))"
      using platform(5) by (simp add: same)
    ultimately show "x \<in> set result" unfolding mem by (intro conjI)
  qed
  with res show ?thesis by (auto simp: PI_def PE_def)
qed

text \<open>
  The amended claim on the example of the specification: the pairs \<^verbatim>\<open>linux/amd64\<close> and
  \<^verbatim>\<open>darwin/amd64\<close> are included and \<^verbatim>\<open>darwin/amd64\<close> is excluded again; the OS include
  \<^verbatim>\<open>windows\<close> and the architecture include \<^verbatim>\<open>386\<close> change nothing.
\<close>

theorem Platforms_pair_includes_witness:
  "well_formed \<lparr>flagOS = [''windows''], flagArch = [''386''],
      flagOSArch = [P ''linux'' ''amd64'' False, P ''darwin'' ''amd64'' False,
                    P ''!darwin'' ''amd64'' False]\<rparr>
   \<and> pairIncludes [P ''linux'' ''amd64'' False, P ''darwin'' ''amd64'' False,
                    P ''!darwin'' ''amd64'' False] \<noteq> []
   \<and> plain [P ''linux'' ''amd64'' True, P ''darwin'' ''amd64'' True, P ''windows'' ''386'' True]
   \<and> plain [P ''linux'' ''amd64'' False, P ''darwin'' ''amd64'' False,
             P ''!darwin'' ''amd64'' False]
   \<and> (\<exists>result.
         Platforms \<lparr>flagOS = [''windows''], flagArch = [''386''],
            flagOSArch = [P ''linux'' ''amd64'' False, P ''darwin'' ''amd64'' False,
                          P ''!darwin'' ''amd64'' False]\<rparr>
           [P ''linux'' ''amd64'' True, P ''darwin'' ''amd64'' True, P ''windows'' ''386'' True]
           = Inr result
         \<and> set result = {P ''linux'' ''amd64'' False})"
proof -
  define p where "p = \<lparr>flagOS = [''windows''], flagArch = [''386''],
      flagOSArch = [P ''linux'' ''amd64'' False, P ''darwin'' ''amd64'' False,
                    P ''!darwin'' ''amd64'' False]\<rparr>"
  define supported where
    "supported = [P ''linux'' ''amd64'' True, P ''darwin'' ''amd64'' True, P ''windows'' ''386'' True]"
  have h: "well_formed p" "pairIncludes (flagOSArch p) \<noteq> []" "plain supported"
    "plain (flagOSArch p)"
    by (simp_all add: p_def supported_def well_formed_def pairIncludes_def negated_def plain_def)
  define kept where "kept platform \<longleftrightarrow>
      identity platform \<in> identity ` set (pairIncludes (flagOSArch p))
      \<and> identity platform \<notin> identity ` set (pairExcludes (flagOSArch p))
      \<and> OS platform \<notin> set (excluded_names (flagOS p))
      \<and> Arch platform \<notin> set (excluded_names (flagArch p))" for platform
  have "map (\<lambda>platform. platform\<lparr>Default := False\<rparr>) (filter kept supported)
      = [P ''linux'' ''amd64'' False]"
    by (simp add: kept_def p_def supported_def pairIncludes_def pairExcludes_def
        excluded_names_def negated_def identity_def)
  then have "set (map (\<lambda>platform. platform\<lparr>Default := False\<rparr>) (filter kept supported))
      = {P ''linux'' ''amd64'' False}"
    by simp
  then have "(\<lambda>platform. platform\<lparr>Default := False\<rparr>) `
      {platform \<in> set supported.
         identity platform \<in> identity ` set (pairIncludes (flagOSArch p))
         \<and> identity platform \<notin> identity ` set (pairExcludes (flagOSArch p))
         \<and> OS platform \<notin> set (excluded_names (flagOS p))
         \<and> Arch platform \<notin> set (excluded_names (flagArch p))}
      = {P ''linux'' ''amd64'' False}"
    by (simp add: kept_def)
  with Platforms_pair_includes [OF h] h show ?thesis
    by (simp add: p_def supported_def)
qed

section \<open>Failures of the flag values\<close>

lemma appendPlatformValue_loop_error:
  "snd (appendPlatformValue_loop vs s) =
     map_option InvalidPlatformSyntax
       (List.find (\<lambda>token. length (Split token CHR ''/'') \<noteq> 2) vs)"
  by (induction vs arbitrary: s) (simp_all add: Let_def)

lemma appendPlatformValue_Set_error:
  "snd (appendPlatformValue_Set s v) =
     (if v = [] then None
      else map_option InvalidPlatformSyntax
             (List.find (\<lambda>token. length (Split token CHR ''/'') \<noteq> 2) (Split v CHR '' '')))"
  by (simp add: appendPlatformValue_Set_def appendPlatformValue_loop_error)

lemma appendStringValue_Set_empty: "appendStringValue_Set names [] = (names, None)"
  by (simp add: appendStringValue_Set_def Split_def)

lemma no_separator: "appendPlatformValue_Set s ''linuxamd64'' = (s, Some (InvalidPlatformSyntax ''linuxamd64''))"
  by (simp add: appendPlatformValue_Set_def Split_def)

text \<open>
  Claim C8, as stated, fails, whichever way the tokens of a value are counted. If the empty
  string counts as a token (it is the one piece that \<^verbatim>\<open>strings.Split\<close> yields for the empty
  value), then the empty value holds a token that does not split into two parts, and yet
  it is accepted. If it does not, then the value \<^verbatim>\<open>a/b  c/d\<close>, with two spaces, holds the
  tokens \<^verbatim>\<open>a/b\<close> and \<^verbatim>\<open>c/d\<close> only, which both split into two parts, and yet it is rejected,
  with an error that names the empty string.
\<close>

theorem pair_value_tokens:
  "appendPlatformValue_Set [] [] = ([], None)
   \<and> Split [] CHR '' '' = [[]] \<and> length (Split [] CHR ''/'') = 1
   \<and> appendPlatformValue_Set [] ''a/b  c/d''
       = ([P ''a'' ''b'' False], Some (InvalidPlatformSyntax []))"
  by code_simp

text \<open>
  Claim C8, amended. Parsing a pair-flag value fails exactly when the value is not empty
  and some piece of it between single spaces (an empty piece, left by a leading, trailing
  or doubled space, is one) does not split into exactly two parts on the separator \<^verbatim>\<open>/\<close>;
  the error names the first such piece, as for \<^verbatim>\<open>linuxamd64\<close>. The empty value is accepted
  and adds nothing. Parsing an empty string as an OS or architecture token yields no entry
  and no error, and parsing OS or architecture tokens never fails. \<open>Platforms\<close> does not
  fail on a request without empty tokens: it returns a result, which may be empty.
\<close>

theorem flag_failures:
  "snd (appendPlatformValue_Set s v) =
     (if v = [] then None
      else map_option InvalidPlatformSyntax
             (List.find (\<lambda>token. length (Split token CHR ''/'') \<noteq> 2) (Split v CHR '' '')))
   \<and> appendPlatformValue_Set s ''linuxamd64'' = (s, Some (InvalidPlatformSyntax ''linuxamd64''))
   \<and> appendPlatformValue_Set s [] = (s, None)
   \<and> appendStringValue_Set names [] = (names, None)
   \<and> snd (appendStringValue_Set names v) = None
   \<and> (well_formed p \<longrightarrow> (\<exists>result. Platforms p supported = Inr result))"
proof (intro conjI impI)
  show "snd (appendPlatformValue_Set s v) =
     (if v = [] then None
      else map_option InvalidPlatformSyntax
             (List.find (\<lambda>token. length (Split token CHR ''/'') \<noteq> 2) (Split v CHR '' '')))"
    by (rule appendPlatformValue_Set_error)
  show "appendPlatformValue_Set s ''linuxamd64'' = (s, Some (InvalidPlatformSyntax ''linuxamd64''))"
    by (rule no_separator)
  show "appendPlatformValue_Set s [] = (s, None)"
    by (simp add: appendPlatformValue_Set_def)
  show "appendStringValue_Set names [] = (names, None)"
    by (rule appendStringValue_Set_empty)
  show "snd (appendStringValue_Set names v) = None"
    by (simp add: appendStringValue_Set_def)
  assume "well_formed p"
  then show "\<exists>result. Platforms p supported = Inr result"
    by (simp add: Platforms_well_formed)
qed

text \<open>
  The amended claim at work: the second piece of \<^verbatim>\<open>linux/amd64 linuxamd64\<close> is named by the
  error, and the request for the unknown OS \<^verbatim>\<open>plan10\<close> yields the empty result, not an
  error.
\<close>

theorem flag_failures_witness:
  "well_formed \<lparr>flagOS = [''plan10''], flagArch = [], flagOSArch = []\<rparr>
   \<and> (\<exists>result. Platforms \<lparr>flagOS = [''plan10''], flagArch = [], flagOSArch = []\<rparr>
                   [P ''linux'' ''amd64'' True] = Inr result)
   \<and> Platforms \<lparr>flagOS = [''plan10''], flagArch = [], flagOSArch = []\<rparr>
         [P ''linux'' ''amd64'' True] = Inr []
   \<and> snd (appendPlatformValue_Set [] ''linux/amd64 linuxamd64'')
       = Some (InvalidPlatformSyntax ''linuxamd64'')"
proof -
  have h: "well_formed \<lparr>flagOS = [''plan10''], flagArch = [], flagOSArch = []\<rparr>"
    by (simp add: well_formed_def)
  have pieces: "Split ''linux/amd64 linuxamd64'' CHR '' '' = [''linux/amd64'', ''linuxamd64'']"
    "Split ''linux/amd64'' CHR ''/'' = [''linux'', ''amd64'']"
    "Split ''linuxamd64'' CHR ''/'' = [''linuxamd64'']"
    by code_simp+
  have e: "Platforms \<lparr>flagOS = [''plan10''], flagArch = [], flagOSArch = []\<rparr>
         [P ''linux'' ''amd64'' True] = Inr []"
    by code_simp
  show ?thesis
    using h e flag_failures [where s = "[]" and v = "''linux/amd64 linuxamd64''"
        and p = "\<lparr>flagOS = [''plan10''], flagArch = [], flagOSArch = []\<rparr>"
        and supported = "[P ''linux'' ''amd64'' True]"]
    by (simp add: pieces)
qed

end
